theory Spec2Isabelle
  imports Main "HOL-Library.Word"
begin

section \<open>The activator's managers (test-activator.c)\<close>

text \<open>
  Heap objects are addressed by natural numbers; a C pointer is \<open>ptr option\<close>, with
  \<open>None\<close> for \<open>NULL\<close>. A call either returns, or the process stops at a failed
  \<open>assert\<close> (assertions are compiled in), or the call touches memory it must not touch
  (undefined behaviour in C). Integers have the widths of a 64-bit Linux target:
  \<open>unsigned\<close> has 32 bits, \<open>size_t\<close> and pointers have 64.
\<close>

type_synonym ptr = nat

datatype fault = AssertionFailed | InvalidPointer | OutOfBounds

text \<open>
  Calls into the bus library whose effect lies outside the activator's own objects are
  recorded in the order in which they are made.
\<close>

datatype call =
    B1InterfaceUnref "ptr option"
  | B1PeerUnref "ptr option"
  | B1NodeFree "ptr option"
  | B1HandleUnref "ptr option"

text \<open>
  \<open>struct Manager\<close>. \<open>n_ref\<close> is a C \<open>unsigned\<close>, 32 bits wide. The two trees are keyed
  by name (\<open>components_compare\<close> and \<open>dependencies_compare\<close> are \<open>strcmp\<close> on the name),
  so each is kept as the list of its keys; the dependency entries carry their handle.
\<close>

record Manager =
  n_ref :: "32 word"
  peer :: "ptr option"
  components :: "string list"
  dependencies :: "(string \<times> ptr) list"
  component_interface :: "ptr option"

record heap =
  managers :: "ptr \<rightharpoonup> Manager"
  calls :: "call list"

definition set_manager :: "heap \<Rightarrow> ptr \<Rightarrow> Manager \<Rightarrow> heap" where
  "set_manager h p m = h\<lparr>managers := (managers h)(p \<mapsto> m)\<rparr>"

definition free_manager :: "heap \<Rightarrow> ptr \<Rightarrow> heap" where
  "free_manager h p = h\<lparr>managers := (managers h)(p := None)\<rparr>"

definition log_calls :: "heap \<Rightarrow> call list \<Rightarrow> heap" where
  "log_calls h cs = h\<lparr>calls := calls h @ cs\<rparr>"

text \<open>
  \<open>manager_unref\<close>: \<open>NULL\<close> is returned as it is; otherwise the count is asserted positive
  and decremented; when it is then not zero the function returns; when it is zero both trees
  are asserted empty, the interface and the peer are released and the manager is freed.
\<close>

definition manager_unref :: "heap \<Rightarrow> ptr option \<Rightarrow> fault + (ptr option \<times> heap)" where
  "manager_unref h mp =
     (case mp of
        None \<Rightarrow> Inr (None, h)
      | Some p \<Rightarrow>
          (case managers h p of
             None \<Rightarrow> Inl InvalidPointer
           | Some m \<Rightarrow>
               if \<not> 0 < n_ref m then Inl AssertionFailed
               else
                 let m' = m\<lparr>n_ref := n_ref m - 1\<rparr>;
                     h' = set_manager h p m'
                 in if n_ref m' \<noteq> 0 then Inr (None, h')
                    else if components m' \<noteq> [] then Inl AssertionFailed
                    else if dependencies m' \<noteq> [] then Inl AssertionFailed
                    else Inr (None,
                           free_manager
                             (log_calls h'
                                [B1InterfaceUnref (component_interface m'), B1PeerUnref (peer m')])
                             p)))"

text \<open>
  \<open>manager_ref\<close>: \<open>NULL\<close> is returned as it is; otherwise the count is asserted positive and
  incremented, in 32-bit unsigned arithmetic, and the same pointer is returned.
\<close>

definition manager_ref :: "heap \<Rightarrow> ptr option \<Rightarrow> fault + (ptr option \<times> heap)" where
  "manager_ref h mp =
     (case mp of
        None \<Rightarrow> Inr (None, h)
      | Some p \<Rightarrow>
          (case managers h p of
             None \<Rightarrow> Inl InvalidPointer
           | Some m \<Rightarrow>
               if \<not> 0 < n_ref m then Inl AssertionFailed
               else Inr (Some p, set_manager h p (m\<lparr>n_ref := n_ref m + 1\<rparr>))))"

text \<open>The invariant of the reference counts: every manager that is allocated has a positive
  count.\<close>

definition live_inv :: "heap \<Rightarrow> bool" where
  "live_inv h = (\<forall>p m. managers h p = Some m \<longrightarrow> 0 < n_ref m)"

definition is_live :: "heap \<Rightarrow> ptr \<Rightarrow> bool" where
  "is_live h p = (managers h p \<noteq> None)"

text \<open>A manager with empty trees holding the given count, and the heap in which it is the
  only manager, at address 0.\<close>

definition manager0 :: "32 word \<Rightarrow> Manager" where
  "manager0 n = \<lparr>n_ref = n, peer = Some 1, components = [], dependencies = [],
                 component_interface = Some 2\<rparr>"

definition one_manager :: "32 word \<Rightarrow> heap" where
  "one_manager n = \<lparr>managers = [0 \<mapsto> manager0 n], calls = []\<rparr>"

section \<open>The activator's components (test-activator.c)\<close>

text \<open>
  A component is one allocation: \<open>struct Component\<close>, followed by the bytes of its name, the
  array of \<open>n_dependencies\<close> string pointers, and the strings these point to. The bytes after
  the struct are the list \<open>tail\<close>, and a pointer into them is an offset. The pointer array
  occupies eight bytes per cell of \<open>tail\<close>, from the offset \<open>dependencies\<close> on; what its
  cells hold is kept in \<open>slots\<close> (\<open>None\<close> is the \<open>NULL\<close> that \<open>calloc\<close> leaves).
  \<open>rb\<close> tells whether the component is linked into its manager's tree.
\<close>

definition NUL :: char where
  "NUL = CHR 0x00"

record Component =
  manager :: "ptr option"
  name :: nat
  rb :: bool
  peer :: "ptr option"
  node :: "ptr option"
  handle :: "ptr option"
  dependencies :: nat
  n_dependencies :: "64 word"
  tail :: "char list"
  slots :: "nat option list"

text \<open>
  \<open>stpcpy (dst, src)\<close> copies the characters of \<open>src\<close> and the terminating \<open>NUL\<close> to \<open>dst\<close>
  and returns the address of that \<open>NUL\<close>. A copy that does not fit into the allocation writes
  out of bounds.
\<close>

definition stpcpy :: "char list \<Rightarrow> nat \<Rightarrow> string \<Rightarrow> fault + (char list \<times> nat)" where
  "stpcpy mem dst src =
     (if dst + length src + 1 \<le> length mem
      then Inr (take dst mem @ src @ NUL # drop (dst + length src + 1) mem, dst + length src)
      else Inl OutOfBounds)"

text \<open>The C string that starts at an offset: the characters up to the first \<open>NUL\<close>.\<close>

definition c_str :: "char list \<Rightarrow> nat \<Rightarrow> string option" where
  "c_str mem p =
     (if NUL \<in> set (drop p mem) then Some (takeWhile (\<lambda>c. c \<noteq> NUL) (drop p mem)) else None)"

text \<open>
  The results of what \<open>component_new\<close> calls outside this file: whether \<open>calloc\<close> returns
  memory, the return values of \<open>b1_node_new\<close>, \<open>b1_node_implement\<close> and \<open>b1_peer_clone\<close> with
  the objects they hand out, and \<open>sizeof (struct Component)\<close>, which depends on the
  \<open>CRBNode\<close> of the red-black tree library.
\<close>

record env =
  calloc_ok :: bool
  sizeof_Component :: "64 word"
  node_new_r :: int
  new_node :: "ptr option"
  node_implement_r :: int
  peer_clone_r :: int
  new_peer :: "ptr option"
  new_handle :: "ptr option"

definition ENOMEM :: int where
  "ENOMEM = 12"

definition ENOTUNIQ :: int where
  "ENOTUNIQ = 76"

text \<open>
  The first loop of \<open>component_new\<close>:
  \<^verbatim>\<open>for (unsigned int i = 0; i < n_dependencies; ++i) n_names += strlen(dependencies[i]) + 1;\<close>
  The counter is 32 bits wide and is compared with a \<open>size_t\<close>, so the loop does not end when
  \<open>n_dependencies\<close> is \<open>2 ^ 32\<close> or more and the array is that long. Reading past the
  caller's array is out of bounds.
\<close>

partial_function (option) names_size ::
  "string list \<Rightarrow> 64 word \<Rightarrow> 32 word \<Rightarrow> 64 word \<Rightarrow> (fault + 64 word) option" where
  "names_size deps n i n_names =
     (if ucast i < n then
        (if unat i < length deps
         then names_size deps n (i + 1) (n_names + (of_nat (length (deps ! unat i)) + 1))
         else Some (Inl OutOfBounds))
      else Some (Inr n_names))"

declare names_size.simps [code]

text \<open>
  The second loop:
  \<^verbatim>\<open>for (unsigned int i = 0; i < n_dependencies; ++i) {
        component->dependencies[i] = buf;
        buf = stpcpy(buf, name) + 1;
  }\<close>
  \<open>doff\<close> is the offset of the pointer array; cell \<open>i\<close> lies in the eight bytes from
  \<open>doff + 8 * i\<close> on.
\<close>

partial_function (option) copy_names ::
  "string \<Rightarrow> nat \<Rightarrow> 64 word \<Rightarrow> 32 word \<Rightarrow> nat \<Rightarrow> nat option list \<times> char list
    \<Rightarrow> (fault + nat option list \<times> char list) option" where
  "copy_names nm doff n i buf st =
     (if ucast i < n then
        (if doff + 8 * (unat i + 1) \<le> length (snd st) \<and> unat i < length (fst st) then
           (case stpcpy (snd st) buf nm of
              Inl f \<Rightarrow> Some (Inl f)
            | Inr (mem, e) \<Rightarrow>
                copy_names nm doff n (i + 1) (e + 1) ((fst st)[unat i := Some buf], mem))
         else Some (Inl OutOfBounds))
      else Some (Inr st))"

declare copy_names.simps [code]

text \<open>
  \<open>component_free\<close>: unlinks the component from its manager's tree when it is linked,
  drops its reference to the manager, releases peer, node and handle, and frees the block.
\<close>

definition component_free :: "heap \<Rightarrow> Component option \<Rightarrow> fault + heap" where
  "component_free h co =
     (case co of
        None \<Rightarrow> Inr h
      | Some c \<Rightarrow>
          (case manager c of
             None \<Rightarrow> Inl InvalidPointer
           | Some mp \<Rightarrow>
               (case managers h mp of
                  None \<Rightarrow> Inl InvalidPointer
                | Some m \<Rightarrow>
                    let h1 = (if rb c
                              then set_manager h mp
                                     (m\<lparr>components :=
                                          (case c_str (tail c) (name c) of
                                             None \<Rightarrow> components m
                                           | Some nm \<Rightarrow> remove1 nm (components m))\<rparr>)
                              else h)
                    in (case manager_unref h1 (Some mp) of
                          Inl f \<Rightarrow> Inl f
                        | Inr (_, h2) \<Rightarrow>
                            Inr (log_calls h2
                                   [B1PeerUnref (peer c), B1NodeFree (node c),
                                    B1HandleUnref (handle c)])))))"

text \<open>
  The block of a new component, from \<open>calloc\<close> to the end of the second loop. \<open>sz\<close> is the
  argument of \<open>calloc\<close> and \<open>szc\<close> is \<open>sizeof (struct Component)\<close>: the bytes after the struct
  are \<open>sz - szc\<close> zero bytes. The name is copied to their start, the pointer array follows
  its \<open>NUL\<close>, and \<open>buf\<close> starts behind the \<open>n_dependencies\<close> cells of the array.
\<close>

definition component_fill ::
  "string \<Rightarrow> 64 word \<Rightarrow> 64 word \<Rightarrow> 64 word \<Rightarrow> (fault + Component) option" where
  "component_fill nm n sz szc =
     (if sz < szc then Some (Inl OutOfBounds)
      else
        (case stpcpy (replicate (unat sz - unat szc) NUL) 0 nm of
           Inl f \<Rightarrow> Some (Inl f)
         | Inr (mem, e) \<Rightarrow>
             (case copy_names nm (e + 1) n 0 (e + 1 + 8 * unat n)
                     (replicate (unat n) None, mem) of
                None \<Rightarrow> None
              | Some (Inl f) \<Rightarrow> Some (Inl f)
              | Some (Inr (sl, mem')) \<Rightarrow>
                  Some (Inr \<lparr>manager = None, name = 0, rb = False, peer = None, node = None,
                             handle = None, dependencies = e + 1, n_dependencies = n,
                             tail = mem', slots = sl\<rparr>))))"

text \<open>Leaving \<open>component_new\<close> with an error: the cleanup handler frees the component.\<close>

definition component_fail ::
  "heap \<Rightarrow> Component \<Rightarrow> int \<Rightarrow> fault + (int \<times> Component option \<times> heap)" where
  "component_fail h c r =
     (case component_free h (Some c) of
        Inl f \<Rightarrow> Inl f
      | Inr h' \<Rightarrow> Inr (r, None, h'))"

text \<open>
  The rest of \<open>component_new\<close>: the reference to the manager, the node, its interface, the
  cloned peer, and the insertion into the manager's tree.
\<close>

definition component_attach ::
  "env \<Rightarrow> heap \<Rightarrow> ptr \<Rightarrow> string \<Rightarrow> Component \<Rightarrow> fault + (int \<times> Component option \<times> heap)" where
  "component_attach e h mp nm c0 =
     (case manager_ref h (Some mp) of
        Inl f \<Rightarrow> Inl f
      | Inr (mr, h1) \<Rightarrow>
          let c1 = c0\<lparr>manager := mr\<rparr> in
          if node_new_r e < 0 then component_fail h1 c1 (node_new_r e)
          else
            let c2 = c1\<lparr>node := new_node e\<rparr> in
            if node_implement_r e < 0 then component_fail h1 c2 (node_implement_r e)
            else if peer_clone_r e < 0 then component_fail h1 c2 (peer_clone_r e)
            else
              (case managers h1 mp of
                 None \<Rightarrow> Inl InvalidPointer
               | Some m \<Rightarrow>
                   Inr (0,
                        Some (c2\<lparr>peer := new_peer e, handle := new_handle e, rb := True\<rparr>),
                        set_manager h1 mp (m\<lparr>components := nm # components m\<rparr>))))"

text \<open>
  \<open>component_new (manager, componentp, name, dependencies, n_dependencies)\<close>. The result
  holds the return value and what is stored through \<open>componentp\<close>, which is taken to be a
  valid pointer; the arguments
  \<open>manager\<close>, \<open>name\<close>, \<open>dependencies\<close> and \<open>n_dependencies\<close> are \<open>mgr\<close>, \<open>name_arg\<close>,
  \<open>deps\<close> and \<open>n_deps\<close> here. A name that is in the
  manager's tree already gives \<open>-ENOTUNIQ\<close>, a failed \<open>calloc\<close> gives \<open>-ENOMEM\<close>. All sizes
  are \<open>size_t\<close>, 64 bits wide.
\<close>

definition component_new ::
  "env \<Rightarrow> heap \<Rightarrow> ptr option \<Rightarrow> string option \<Rightarrow> string list option \<Rightarrow> 64 word
    \<Rightarrow> (fault + (int \<times> Component option \<times> heap)) option" where
  "component_new e h mgr name_arg deps n_deps =
     (case (mgr, name_arg) of
        (Some mp, Some nm) \<Rightarrow>
          if n_deps \<noteq> 0 \<and> deps = None then Some (Inl AssertionFailed)
          else
            (case managers h mp of
               None \<Rightarrow> Some (Inl InvalidPointer)
             | Some m \<Rightarrow>
                 if nm \<in> set (components m) then Some (Inr (- ENOTUNIQ, None, h))
                 else
                   (case names_size (case deps of None \<Rightarrow> [] | Some ds \<Rightarrow> ds)
                           n_deps 0 (of_nat (length nm) + 1) of
                      None \<Rightarrow> None
                    | Some (Inl f) \<Rightarrow> Some (Inl f)
                    | Some (Inr n_names) \<Rightarrow>
                        if \<not> calloc_ok e then Some (Inr (- ENOMEM, None, h))
                        else
                          (case component_fill nm n_deps
                                  (sizeof_Component e + 8 * n_deps + n_names)
                                  (sizeof_Component e) of
                             None \<Rightarrow> None
                           | Some (Inl f) \<Rightarrow> Some (Inl f)
                           | Some (Inr c) \<Rightarrow> Some (component_attach e h mp nm c))))
      | _ \<Rightarrow> Some (Inl AssertionFailed))"

text \<open>The string that \<open>component->dependencies[i]\<close> points to.\<close>

definition dependency_string :: "Component \<Rightarrow> nat \<Rightarrow> string option" where
  "dependency_string c i =
     (if i < length (slots c)
      then (case slots c ! i of None \<Rightarrow> None | Some p \<Rightarrow> c_str (tail c) p)
      else None)"

text \<open>The environment in which every call outside this file succeeds.\<close>

definition env_ok :: env where
  "env_ok = \<lparr>calloc_ok = True, sizeof_Component = 80, node_new_r = 0, new_node = Some 10,
             node_implement_r = 0, peer_clone_r = 0, new_peer = Some 11,
             new_handle = Some 12\<rparr>"

section \<open>Interfaces and dispatch (declared in org.bus1/b1-peer.h)\<close>

text \<open>
  \<open>b1-peer.h\<close> declares the interface registry and \<open>b1_message_dispatch\<close>; the bodies of
  these functions are not among the sources. What follows models them from section 4.5 of
  the specification, with the types of the header.
\<close>

text \<open>The message types, as the enum of \<open>b1-peer.h\<close> lists them.\<close>

datatype message_type =
    B1_MESSAGE_TYPE_NODE_DESTROY
  | B1_MESSAGE_TYPE_CALL
  | B1_MESSAGE_TYPE_REPLY
  | B1_MESSAGE_TYPE_ERROR
  | B1_MESSAGE_TYPE_SEED

text \<open>
  Modelled from the spec: the conditions under which the functions modelled here fail; the
  header only says that they return a negative \<open>int\<close>.
\<close>

datatype b1_error =
    UnknownDestination
  | UnknownMember
  | SignatureMismatch
  | InterfaceInUse
  | DuplicateMember
  | AlreadyImplemented
  | NodeDestroyed
  | OutOfMemory

text \<open>
  Modelled from the spec: the interface, whose struct is not in the sources. "A name plus an
  ordered set of Members, each a (name, input signature, output signature, handler) tuple."
  \<open>in_use\<close> records that a node implements the interface ("frozen-after-publish").
\<close>

record Member =
  member_name :: string
  type_input :: string
  type_output :: string
  member_fn :: ptr

record B1Interface =
  interface_name :: string
  members :: "Member list"
  in_use :: bool

text \<open>
  Modelled from the spec: the body of \<open>b1_interface_new\<close>, missing from the sources. A new
  interface has its name, no member, and no node that implements it.
\<close>

definition b1_interface_new :: "string \<Rightarrow> B1Interface" where
  "b1_interface_new nm = \<lparr>interface_name = nm, members = [], in_use = False\<rparr>"

definition member_names :: "B1Interface \<Rightarrow> string list" where
  "member_names i = map member_name (members i)"

text \<open>
  Modelled from the spec: the body of \<open>b1_interface_add_member\<close>, missing from the sources.
  It "fails if the interface is already in use by a node (frozen-after-publish) or if the name
  is a duplicate"; allocation failure is the resource error of section 7, and \<open>alloc_ok\<close>
  tells whether memory for the member is available. The result is the error, if any, and the
  interface after the call; a new member is added behind the others.
\<close>

definition b1_interface_add_member ::
  "bool \<Rightarrow> B1Interface \<Rightarrow> string \<Rightarrow> string \<Rightarrow> string \<Rightarrow> ptr \<Rightarrow> b1_error option \<times> B1Interface" where
  "b1_interface_add_member alloc_ok i nm tin tout f =
     (if in_use i then (Some InterfaceInUse, i)
      else if nm \<in> set (member_names i) then (Some DuplicateMember, i)
      else if \<not> alloc_ok then (Some OutOfMemory, i)
      else (None,
            i\<lparr>members := members i @
                 [\<lparr>member_name = nm, type_input = tin, type_output = tout, member_fn = f\<rparr>]\<rparr>))"

text \<open>
  Modelled from the spec: the node, whose struct is not in the sources. It is "active", then
  "released", then "destroyed", and holds "an optional Interface binding" and "an opaque
  user-context pointer".
\<close>

datatype node_state = Active | Released | Destroyed

record B1Node =
  node_state :: node_state
  implementation :: "B1Interface option"
  userdata :: "ptr option"

text \<open>
  Modelled from the spec: the body of \<open>b1_node_implement\<close>, missing from the sources. It
  attaches an interface, "may be called once, fails if already implemented or if node already
  destroyed"; from then on the interface is in use.
\<close>

definition b1_node_implement :: "B1Node \<Rightarrow> B1Interface \<Rightarrow> b1_error option \<times> B1Node \<times> B1Interface" where
  "b1_node_implement nd i =
     (if node_state nd = Destroyed then (Some NodeDestroyed, nd, i)
      else if implementation nd \<noteq> None then (Some AlreadyImplemented, nd, i)
      else (None, nd\<lparr>implementation := Some (i\<lparr>in_use := True\<rparr>)\<rparr>, i\<lparr>in_use := True\<rparr>))"

text \<open>
  Modelled from the spec: what \<open>b1_message_dispatch\<close> reads of an inbound message, whose
  struct is not in the sources: its type, the handle it is addressed to, "the name carried in
  the call" and "the call's payload signature".
\<close>

record B1Message =
  message_type :: message_type
  destination :: ptr
  member :: string
  signature :: string

text \<open>
  Modelled from the spec: what dispatch does with a message. It invokes a handler "with the
  node, its user context, and the message" (the handler, the node's identifier and the user
  context are recorded), or the message is not a call; the other message types are not
  modelled.
\<close>

datatype dispatched =
    Invoke ptr ptr "ptr option"
  | NotACall

definition node_members :: "B1Node \<Rightarrow> Member list" where
  "node_members nd = (case implementation nd of None \<Rightarrow> [] | Some i \<Rightarrow> members i)"

text \<open>
  Modelled from the spec: the body of \<open>b1_message_dispatch\<close> for a \<open>CALL\<close>, missing from the
  sources. The nodes of the receiving peer are "keyed by local identifier". The steps of
  section 4.5: "(1) resolve target node from the message's destination handle - fail with
  unknown destination if stale/destroyed; (2) look up the member by the name carried in the
  call - fail with unknown member if absent; (3) validate the call's payload signature exactly
  matches the member's declared input signature - fail with signature mismatch otherwise;
  (4) invoke the handler". A node without an interface has no member. How a failure is
  reported to the caller (section 7: as an \<open>ERROR\<close> reply) is not modelled.
\<close>

definition b1_message_dispatch :: "(ptr \<rightharpoonup> B1Node) \<Rightarrow> B1Message \<Rightarrow> b1_error + dispatched" where
  "b1_message_dispatch nodes m =
     (if message_type m \<noteq> B1_MESSAGE_TYPE_CALL then Inr NotACall
      else
        (case nodes (destination m) of
           None \<Rightarrow> Inl UnknownDestination
         | Some nd \<Rightarrow>
             if node_state nd \<noteq> Active then Inl UnknownDestination
             else
               (case find (\<lambda>mb. member_name mb = member m) (node_members nd) of
                  None \<Rightarrow> Inl UnknownMember
                | Some mb \<Rightarrow>
                    if signature m \<noteq> type_input mb then Inl SignatureMismatch
                    else Inr (Invoke (member_fn mb) (destination m) (userdata nd)))))"

text \<open>
  The interface that \<open>manager_new\<close> of the activator builds, with its two handlers at the
  addresses 100 and 101, a node at address 7 that implements it, and calls to that node.
\<close>

definition component_interface_example :: B1Interface where
  "component_interface_example =
     snd (b1_interface_add_member True
            (snd (b1_interface_add_member True
                    (b1_interface_new ''org.bus1.Activator.Component'')
                    ''setRootNodes'' ''a(su)'' ''()'' 100))
            ''getDependencies'' ''()'' ''a(su)'' 101)"

definition node_example :: B1Node where
  "node_example =
     fst (snd (b1_node_implement
                 \<lparr>node_state = Active, implementation = None, userdata = Some 8\<rparr>
                 component_interface_example))"

definition nodes_example :: "ptr \<rightharpoonup> B1Node" where
  "nodes_example = [7 \<mapsto> node_example]"

definition call_example :: "string \<Rightarrow> string \<Rightarrow> B1Message" where
  "call_example mb sg =
     \<lparr>message_type = B1_MESSAGE_TYPE_CALL, destination = 7, member = mb, signature = sg\<rparr>"

section \<open>Properties of the managers\<close>

lemma live_inv_set_manager:
  "live_inv h \<Longrightarrow> 0 < n_ref m \<Longrightarrow> live_inv (set_manager h p m)"
  by (simp add: live_inv_def set_manager_def)

lemma uint_max_minus_one: "(4294967295 :: 32 word) = - 1"
  by simp

lemma uint_max_succ: "(4294967296 :: 32 word) = 0"
  by (simp add: word_uint_eq_iff)

lemma word_succ_pos: "(n :: 32 word) \<noteq> 4294967295 \<Longrightarrow> 0 < n + 1"
  unfolding uint_max_minus_one by (metis add.commute add_eq_0_iff word_neq_0_conv)

lemma word_pred_pos: "0 < (n :: 32 word) \<Longrightarrow> n - 1 \<noteq> 0 \<Longrightarrow> 0 < n - 1"
  using word_neq_0_conv by blast

lemma manager_ref_live:
  assumes "live_inv h" "managers h p = Some m" "n_ref m \<noteq> 4294967295"
  shows "manager_ref h (Some p) = Inr (Some p, set_manager h p (m\<lparr>n_ref := n_ref m + 1\<rparr>))"
    and "live_inv (set_manager h p (m\<lparr>n_ref := n_ref m + 1\<rparr>))"
proof -
  from assms(1,2) have pos: "0 < n_ref m" by (auto simp: live_inv_def)
  then show "manager_ref h (Some p) = Inr (Some p, set_manager h p (m\<lparr>n_ref := n_ref m + 1\<rparr>))"
    using assms(2) by (simp add: manager_ref_def)
  show "live_inv (set_manager h p (m\<lparr>n_ref := n_ref m + 1\<rparr>))"
    using assms(1,3) by (simp add: live_inv_set_manager word_succ_pos)
qed

lemma manager_unref_live:
  assumes "live_inv h" "managers h p = Some m" "manager_unref h (Some p) = Inr (r, h')"
  shows "r = None \<and> (is_live h' p \<longleftrightarrow> n_ref m \<noteq> 1)
     \<and> (n_ref m \<noteq> 1 \<longrightarrow> h' = set_manager h p (m\<lparr>n_ref := n_ref m - 1\<rparr>))
     \<and> live_inv h'"
proof -
  from assms(1,2) have pos: "0 < n_ref m" by (auto simp: live_inv_def)
  show ?thesis
  proof (cases "n_ref m = 1")
    case True
    with assms(2,3) pos have h': "h' = free_manager (log_calls (set_manager h p (m\<lparr>n_ref := 0\<rparr>))
        [B1InterfaceUnref (component_interface m), B1PeerUnref (Manager.peer m)]) p" and r: "r = None"
      by (auto simp: manager_unref_def Let_def split: if_splits)
    have "live_inv h'"
      using assms(1) unfolding h' live_inv_def free_manager_def log_calls_def set_manager_def
      by auto
    moreover have "\<not> is_live h' p"
      by (simp add: h' is_live_def free_manager_def)
    ultimately show ?thesis using True r by simp
  next
    case False
    then have nz: "n_ref m - 1 \<noteq> 0" by simp
    with assms(2,3) pos have h': "h' = set_manager h p (m\<lparr>n_ref := n_ref m - 1\<rparr>)" and r: "r = None"
      by (auto simp: manager_unref_def Let_def split: if_splits)
    have "live_inv h'"
      unfolding h' using assms(1) pos nz by (simp add: live_inv_set_manager word_pred_pos)
    moreover have "is_live h' p"
      by (simp add: h' is_live_def set_manager_def)
    ultimately show ?thesis using False r h' by simp
  qed
qed

lemma manager_unref_frame:
  assumes "manager_unref h (Some p) = Inr (r, h')" "q \<noteq> p"
  shows "managers h' q = managers h q"
  using assms
  by (auto simp: manager_unref_def Let_def set_manager_def free_manager_def log_calls_def
      split: option.splits if_splits)

lemma manager_unref_returns:
  assumes "live_inv h" "managers h p = Some m"
    "n_ref m = 1 \<longrightarrow> components m = [] \<and> Manager.dependencies m = []"
  shows "\<exists>h'. manager_unref h (Some p) = Inr (None, h')"
proof -
  from assms(1,2) have pos: "0 < n_ref m" by (auto simp: live_inv_def)
  then show ?thesis using assms(2,3)
    by (auto simp: manager_unref_def Let_def)
qed

text \<open>
  C10, as the code has it. In a heap where every allocated manager has a positive count:
  \<open>manager_ref\<close> and \<open>manager_unref\<close> return \<open>NULL\<close> for \<open>NULL\<close> and change nothing;
  \<open>manager_ref\<close> on a manager whose count is below \<open>UINT_MAX\<close> returns the same pointer,
  adds one to the count and keeps the invariant; whenever \<open>manager_unref\<close> returns it returns
  \<open>NULL\<close>, the manager is freed exactly when its count was one, otherwise the count is one
  less, no other manager changes, and the invariant is kept; and \<open>manager_unref\<close> does return
  unless the count drops to zero while a tree is not empty (the assertions).
\<close>

theorem manager_refcount:
  "live_inv h \<Longrightarrow>
     manager_ref h None = Inr (None, h) \<and> manager_unref h None = Inr (None, h) \<and>
     (\<forall>p m. managers h p = Some m \<and> n_ref m \<noteq> 4294967295 \<longrightarrow>
        manager_ref h (Some p) = Inr (Some p, set_manager h p (m\<lparr>n_ref := n_ref m + 1\<rparr>)) \<and>
        live_inv (set_manager h p (m\<lparr>n_ref := n_ref m + 1\<rparr>))) \<and>
     (\<forall>p m r h'. managers h p = Some m \<and> manager_unref h (Some p) = Inr (r, h') \<longrightarrow>
        r = None \<and> (is_live h' p \<longleftrightarrow> n_ref m \<noteq> 1) \<and>
        (n_ref m \<noteq> 1 \<longrightarrow> h' = set_manager h p (m\<lparr>n_ref := n_ref m - 1\<rparr>)) \<and>
        (\<forall>q. q \<noteq> p \<longrightarrow> managers h' q = managers h q) \<and> live_inv h') \<and>
     (\<forall>p m. managers h p = Some m \<and>
        (n_ref m = 1 \<longrightarrow> components m = [] \<and> Manager.dependencies m = []) \<longrightarrow>
        (\<exists>h'. manager_unref h (Some p) = Inr (None, h')))"
proof -
  assume inv: "live_inv h"
  have nulls: "manager_ref h None = Inr (None, h) \<and> manager_unref h None = Inr (None, h)"
    by (simp add: manager_ref_def manager_unref_def)
  have refs: "\<forall>p m. managers h p = Some m \<and> n_ref m \<noteq> 4294967295 \<longrightarrow>
        manager_ref h (Some p) = Inr (Some p, set_manager h p (m\<lparr>n_ref := n_ref m + 1\<rparr>)) \<and>
        live_inv (set_manager h p (m\<lparr>n_ref := n_ref m + 1\<rparr>))"
    using manager_ref_live[OF inv] by blast
  have unrefs: "\<forall>p m r h'. managers h p = Some m \<and> manager_unref h (Some p) = Inr (r, h') \<longrightarrow>
        r = None \<and> (is_live h' p \<longleftrightarrow> n_ref m \<noteq> 1) \<and>
        (n_ref m \<noteq> 1 \<longrightarrow> h' = set_manager h p (m\<lparr>n_ref := n_ref m - 1\<rparr>)) \<and>
        (\<forall>q. q \<noteq> p \<longrightarrow> managers h' q = managers h q) \<and> live_inv h'"
    using manager_unref_live[OF inv] manager_unref_frame by blast
  have returns: "\<forall>p m. managers h p = Some m \<and>
        (n_ref m = 1 \<longrightarrow> components m = [] \<and> Manager.dependencies m = []) \<longrightarrow>
        (\<exists>h'. manager_unref h (Some p) = Inr (None, h'))"
    using manager_unref_returns[OF inv] by blast
  from nulls refs unrefs returns show ?thesis by blast
qed

theorem manager_refcount_witness:
  "live_inv (one_manager 2) \<and>
   manager_ref (one_manager 2) None = Inr (None, one_manager 2) \<and>
   manager_unref (one_manager 2) None = Inr (None, one_manager 2) \<and>
   manager_ref (one_manager 2) (Some 0) = Inr (Some 0, one_manager 3) \<and>
   live_inv (one_manager 3) \<and>
   manager_unref (one_manager 2) (Some 0) = Inr (None, one_manager 1) \<and>
   is_live (one_manager 1) 0 \<and> live_inv (one_manager 1)"
proof -
  have inv: "live_inv (one_manager 2)"
    by (simp add: live_inv_def one_manager_def manager0_def)
  have m: "managers (one_manager 2) 0 = Some (manager0 2)"
    by (simp add: one_manager_def)
  have ne: "n_ref (manager0 2) \<noteq> 4294967295" "n_ref (manager0 2) \<noteq> 1"
    by (simp_all add: manager0_def)
  have up: "set_manager (one_manager 2) 0 ((manager0 2)\<lparr>n_ref := n_ref (manager0 2) + 1\<rparr>)
      = one_manager 3"
    by (simp add: set_manager_def one_manager_def manager0_def)
  have down: "manager_unref (one_manager 2) (Some 0) = Inr (None, one_manager 1)"
    by (simp add: manager_unref_def set_manager_def one_manager_def manager0_def)
  note all = manager_refcount[OF inv]
  from all have nulls: "manager_ref (one_manager 2) None = Inr (None, one_manager 2)"
    "manager_unref (one_manager 2) None = Inr (None, one_manager 2)"
    by blast+
  from all m ne(1) have ref: "manager_ref (one_manager 2) (Some 0) =
      Inr (Some 0, set_manager (one_manager 2) 0 ((manager0 2)\<lparr>n_ref := n_ref (manager0 2) + 1\<rparr>))
    \<and> live_inv (set_manager (one_manager 2) 0 ((manager0 2)\<lparr>n_ref := n_ref (manager0 2) + 1\<rparr>))"
    by blast
  from all m down ne(2) have unref: "is_live (one_manager 1) 0 \<and> live_inv (one_manager 1)"
    by blast
  from inv nulls ref unref down show ?thesis
    unfolding up by blast
qed

text \<open>
  The invariant is not kept at \<open>UINT_MAX\<close>: the assertion holds, the increment wraps to
  zero, and the manager stays allocated with a count of zero.
\<close>

theorem manager_ref_wraps_counterexample:
  "live_inv (one_manager 4294967295) \<and>
   manager_ref (one_manager 4294967295) (Some 0) = Inr (Some 0, one_manager 0) \<and>
   is_live (one_manager 0) 0 \<and> \<not> live_inv (one_manager 0)"
  by (simp add: live_inv_def one_manager_def manager0_def manager_ref_def set_manager_def
      is_live_def word_less_def uint_max_succ)

section \<open>Properties of the components\<close>

lemma c_str_Some_iff:
  "c_str mem p = Some s \<longleftrightarrow> (\<exists>rest. drop p mem = s @ NUL # rest \<and> NUL \<notin> set s)"
proof
  assume a: "c_str mem p = Some s"
  then have in_set: "NUL \<in> set (drop p mem)" and s: "s = takeWhile (\<lambda>c. c \<noteq> NUL) (drop p mem)"
    by (auto simp: c_str_def split: if_splits)
  have "drop p mem = s @ dropWhile (\<lambda>c. c \<noteq> NUL) (drop p mem)"
    by (simp add: s)
  moreover from in_set have "dropWhile (\<lambda>c. c \<noteq> NUL) (drop p mem) \<noteq> []"
    by (auto simp: dropWhile_eq_Nil_conv)
  then obtain x rest where dw: "dropWhile (\<lambda>c. c \<noteq> NUL) (drop p mem) = x # rest"
    by (cases "dropWhile (\<lambda>c. c \<noteq> NUL) (drop p mem)") auto
  then have "x = NUL" using hd_dropWhile[of "\<lambda>c. c \<noteq> NUL" "drop p mem"] by auto
  moreover have "NUL \<notin> set s" unfolding s using set_takeWhileD by fastforce
  ultimately show "\<exists>rest. drop p mem = s @ NUL # rest \<and> NUL \<notin> set s"
    using dw by auto
next
  assume "\<exists>rest. drop p mem = s @ NUL # rest \<and> NUL \<notin> set s"
  then obtain rest where d: "drop p mem = s @ NUL # rest" and s: "NUL \<notin> set s" by blast
  have "takeWhile (\<lambda>c. c \<noteq> NUL) (s @ NUL # rest) = s"
    using s by (induction s) auto
  then show "c_str mem p = Some s"
    by (simp add: c_str_def d)
qed

lemma stpcpy_Inr:
  assumes "stpcpy mem d s = Inr (mem', e)"
  shows "e = d + length s" and "length mem' = length mem" and "take d mem' = take d mem"
    and "d + length s + 1 \<le> length mem"
    and "drop d mem' = s @ NUL # drop (d + length s + 1) mem"
  using assms by (auto simp: stpcpy_def split: if_splits)

lemma c_str_stpcpy:
  assumes "stpcpy mem d s = Inr (mem', e)" "NUL \<notin> set s"
  shows "c_str mem' d = Some s"
  using stpcpy_Inr(5)[OF assms(1)] assms(2) by (auto simp: c_str_Some_iff)

lemma c_str_take_cong:
  assumes "take q mem' = take q mem" "c_str mem p = Some s" "p + length s < q"
  shows "c_str mem' p = Some s"
proof -
  from assms(2) obtain rest where d: "drop p mem = s @ NUL # rest" and s: "NUL \<notin> set s"
    by (auto simp: c_str_Some_iff)
  have len: "p + length s + 1 \<le> length mem"
  proof -
    have "length (drop p mem) = length s + 1 + length rest" by (simp add: d)
    then show ?thesis by simp
  qed
  have "take (q - p) (drop p mem') = take (q - p) (drop p mem)"
    using assms(1) by (metis drop_take)
  also have "\<dots> = s @ NUL # take (q - p - length s - 1) rest"
    using assms(3) by (simp add: d take_Cons')
  finally have t: "take (q - p) (drop p mem') = s @ NUL # take (q - p - length s - 1) rest" .
  define r where "r = drop (q - p) (drop p mem')"
  have "drop p mem' = take (q - p) (drop p mem') @ r"
    unfolding r_def by (rule append_take_drop_id [symmetric])
  then have "drop p mem' = s @ NUL # (take (q - p - length s - 1) rest @ r)"
    by (simp only: t append_Cons append_assoc)
  then show ?thesis using s unfolding c_str_Some_iff by blast
qed

lemma unat_ucast_32_64: "unat (ucast (i :: 32 word) :: 64 word) = unat i"
proof -
  have "unat i < 2 ^ 32" using unsigned_less[of i, where 'a=nat] by simp
  then have "unat i < 2 ^ 64" by (rule less_trans) simp
  then show ?thesis
    by (simp add: unsigned_ucast_eq take_bit_nat_eq_self)
qed

lemma ucast_less_iff: "(ucast (i :: 32 word) :: 64 word) < n \<longleftrightarrow> unat i < unat n"
  by (simp add: word_less_nat_alt unat_ucast_32_64)

lemma unat_32_bound: "unat (i :: 32 word) < 2 ^ 32"
  using unsigned_less[of i, where 'a=nat] by simp

lemma unat_succ_32:
  assumes "unat (i :: 32 word) < k" "k < 2 ^ 32"
  shows "unat (i + 1) = unat i + 1"
proof -
  have "unat i + unat (1 :: 32 word) < 2 ^ LENGTH(32)" using assms by simp
  then show ?thesis by (simp add: unat_add_lem[THEN iffD1])
qed

lemma copy_names_bound_aux:
  assumes "copy_names nm doff n i buf st = Some y"
  shows "\<forall>st'. y = Inr st' \<longrightarrow> unat n < 2 ^ 32"
proof (rule copy_names.raw_induct
    [where P = "\<lambda>nm doff n i buf st y. \<forall>st'. y = Inr st' \<longrightarrow> unat n < 2 ^ 32", OF _ assms])
  fix f :: "string \<Rightarrow> nat \<Rightarrow> 64 word \<Rightarrow> 32 word \<Rightarrow> nat \<Rightarrow> nat option list \<times> char list
    \<Rightarrow> (fault + nat option list \<times> char list) option"
  fix nm doff n i buf st y
  assume IH: "\<And>nm doff n i buf st y. f nm doff n i buf st = Some y
      \<Longrightarrow> \<forall>st'. y = Inr st' \<longrightarrow> unat n < 2 ^ 32"
  assume step: "(if ucast i < n
      then if doff + 8 * (unat i + 1) \<le> length (snd st) \<and> unat i < length (fst st)
           then case stpcpy (snd st) buf nm of Inl f \<Rightarrow> Some (Inl f)
                | Inr (mem, e) \<Rightarrow> f nm doff n (i + 1) (e + 1) ((fst st)[unat i := Some buf], mem)
           else Some (Inl OutOfBounds)
      else Some (Inr st)) = Some y"
  show "\<forall>st'. y = Inr st' \<longrightarrow> unat n < 2 ^ 32"
  proof (cases "ucast i < n")
    case False
    then have "unat n \<le> unat i" by (simp add: ucast_less_iff)
    then show ?thesis using unat_32_bound[of i] by simp
  next
    case True
    with step show ?thesis
      by (auto split: if_splits sum.splits prod.splits dest: IH)
  qed
qed

lemma copy_names_bound:
  "copy_names nm doff n i buf st = Some (Inr st') \<Longrightarrow> unat n < 2 ^ 32"
  using copy_names_bound_aux by blast


lemma copy_names_post:
  assumes n: "unat n < 2 ^ 32" and nm: "NUL \<notin> set nm"
  shows "copy_names nm doff n i buf (sl, mem) = Some (Inr (sl', mem')) \<Longrightarrow>
     length sl' = length sl \<and> (\<forall>j < unat i. sl' ! j = sl ! j) \<and> take buf mem' = take buf mem \<and>
     (\<forall>j. unat i \<le> j \<and> j < unat n \<longrightarrow> (\<exists>p. sl' ! j = Some p \<and> c_str mem' p = Some nm))"
proof (induction "unat n - unat i" arbitrary: i buf sl mem)
  case 0
  then have "\<not> ucast i < n" by (simp add: ucast_less_iff)
  with 0(2) have "sl' = sl" "mem' = mem"
    by (simp_all add: copy_names.simps[of nm doff n i buf "(sl, mem)"])
  moreover from 0(1) have "\<forall>j. \<not> (unat i \<le> j \<and> j < unat n)" by auto
  ultimately show ?case by auto
next
  case (Suc k)
  then have lt: "unat i < unat n" by simp
  then have guard: "ucast i < n" by (simp add: ucast_less_iff)
  have suc: "unat (i + 1) = unat i + 1" using lt n by (rule unat_succ_32)
  from Suc(3) guard obtain mem1 e where
    inb: "unat i < length sl" and
    cp: "stpcpy mem buf nm = Inr (mem1, e)" and
    rec: "copy_names nm doff n (i + 1) (e + 1) (sl[unat i := Some buf], mem1) = Some (Inr (sl', mem'))"
    by (auto simp: copy_names.simps[of nm doff n i buf "(sl, mem)"]
        split: if_splits sum.splits prod.splits)
  have e: "e = buf + length nm" using cp by (rule stpcpy_Inr(1))
  have k: "k = unat n - unat (i + 1)" using Suc(2) suc by simp
  note IH = Suc(1)[OF k rec]
  have len: "length sl' = length sl" using IH by simp
  have old: "\<forall>j < unat i. sl' ! j = sl ! j"
  proof (intro allI impI)
    fix j assume j: "j < unat i"
    then have "sl' ! j = (sl[unat i := Some buf]) ! j" using IH suc by simp
    then show "sl' ! j = sl ! j" using j by simp
  qed
  have tk: "take (e + 1) mem' = take (e + 1) mem1" using IH by simp
  have "take buf mem' = take buf (take (e + 1) mem')" using e by (simp add: min_def)
  also have "\<dots> = take buf mem1" unfolding tk using e by (simp add: min_def)
  also have "\<dots> = take buf mem" using cp by (rule stpcpy_Inr(3))
  finally have frame: "take buf mem' = take buf mem" .
  have here: "sl' ! unat i = Some buf \<and> c_str mem' buf = Some nm"
  proof
    have "sl' ! unat i = (sl[unat i := Some buf]) ! unat i" using IH suc by simp
    then show "sl' ! unat i = Some buf" using inb by simp
    have "c_str mem1 buf = Some nm" using cp nm by (rule c_str_stpcpy)
    with tk show "c_str mem' buf = Some nm"
      by (rule c_str_take_cong) (simp add: e)
  qed
  have new: "\<forall>j. unat i \<le> j \<and> j < unat n \<longrightarrow> (\<exists>p. sl' ! j = Some p \<and> c_str mem' p = Some nm)"
  proof (intro allI impI)
    fix j assume j: "unat i \<le> j \<and> j < unat n"
    show "\<exists>p. sl' ! j = Some p \<and> c_str mem' p = Some nm"
    proof (cases "j = unat i")
      case True
      then show ?thesis using here by blast
    next
      case False
      with j have "unat (i + 1) \<le> j \<and> j < unat n" using suc by simp
      then show ?thesis using IH by blast
    qed
  qed
  show ?case using len old frame new by blast
qed


lemma component_fill_Inr:
  assumes "component_fill nm n sz szc = Some (Inr c)" and nm: "NUL \<notin> set nm"
  shows "n_dependencies c = n \<and> length (slots c) = unat n \<and>
         c_str (tail c) (name c) = Some nm \<and>
         (\<forall>i < unat n. \<exists>p. slots c ! i = Some p \<and> c_str (tail c) p = Some nm)"
proof -
  from assms(1) obtain mem e sl mem' where
    cp: "stpcpy (replicate (unat sz - unat szc) NUL) 0 nm = Inr (mem, e)" and
    loop: "copy_names nm (e + 1) n 0 (e + 1 + 8 * unat n) (replicate (unat n) None, mem)
             = Some (Inr (sl, mem'))" and
    c: "c = \<lparr>manager = None, name = 0, rb = False, peer = None, node = None, handle = None,
             dependencies = e + 1, n_dependencies = n, tail = mem', slots = sl\<rparr>"
    by (auto simp: component_fill_def split: if_splits sum.splits prod.splits option.splits)
  have bound: "unat n < 2 ^ 32" using loop by (rule copy_names_bound)
  note post = copy_names_post[OF bound nm loop]
  have e: "e = length nm" using stpcpy_Inr(1)[OF cp] by simp
  have first: "c_str mem 0 = Some nm" using cp nm by (rule c_str_stpcpy)
  have "take (e + 1 + 8 * unat n) mem' = take (e + 1 + 8 * unat n) mem"
    using post by simp
  then have own: "c_str mem' 0 = Some nm"
    using first by (rule c_str_take_cong) (simp add: e)
  from post have "\<forall>i < unat n. \<exists>p. sl ! i = Some p \<and> c_str mem' p = Some nm"
    by simp
  moreover from post have "length sl = unat n" by simp
  ultimately show ?thesis using own by (simp add: c)
qed

lemma component_fail_None:
  "component_fail h c r = Inr (r', co, h') \<Longrightarrow> co = None"
  by (auto simp: component_fail_def split: sum.splits)

lemma component_attach_Some:
  assumes "component_attach e h mp nm c0 = Inr (r, Some c, h')"
  shows "r = 0 \<and> tail c = tail c0 \<and> slots c = slots c0 \<and> name c = name c0 \<and>
         n_dependencies c = n_dependencies c0"
  using assms
  by (auto simp: component_attach_def Let_def
      split: sum.splits prod.splits if_splits option.splits dest: component_fail_None)

lemma component_new_Some:
  assumes "component_new e h mgr (Some nm) deps n = Some (Inr (r, Some c, h'))"
  shows "\<exists>mp c0 sz. mgr = Some mp \<and> component_fill nm n sz (sizeof_Component e) = Some (Inr c0) \<and>
          component_attach e h mp nm c0 = Inr (r, Some c, h')"
  using assms
  by (auto simp: component_new_def split: option.splits if_splits sum.splits)

text \<open>
  C9. Whenever \<open>component_new\<close> hands back a component, for a name that is a C string, it
  returns 0, the component's name is that string, and each of the \<open>n_dependencies\<close> cells of
  its pointer array points to a \<open>NUL\<close>-terminated copy of the name, whatever the caller's
  array \<open>deps\<close> holds.
\<close>

theorem component_new_dependencies:
  assumes "component_new e h mgr (Some nm) deps n = Some (Inr (r, Some c, h'))"
    and "NUL \<notin> set nm"
  shows "r = 0 \<and> n_dependencies c = n \<and> c_str (tail c) (name c) = Some nm \<and>
         (\<forall>i < unat n. dependency_string c i = Some nm)"
proof -
  from component_new_Some[OF assms(1)] obtain mp c0 sz where
    fill: "component_fill nm n sz (sizeof_Component e) = Some (Inr c0)" and
    att: "component_attach e h mp nm c0 = Inr (r, Some c, h')"
    by blast
  note f = component_fill_Inr[OF fill assms(2)]
  note a = component_attach_Some[OF att]
  have "\<forall>i < unat n. dependency_string c i = Some nm"
  proof (intro allI impI)
    fix i assume i: "i < unat n"
    with f obtain p where "slots c0 ! i = Some p" "c_str (tail c0) p = Some nm" by blast
    then show "dependency_string c i = Some nm"
      using i f a by (simp add: dependency_string_def)
  qed
  then show ?thesis using f a by simp
qed

lemma component_new_example:
  "(case component_new env_ok (one_manager 1) (Some 0) (Some ''foo'')
           (Some [''a'', ''bcdefgh'']) 2 of
      Some (Inr (r, Some c, h')) \<Rightarrow> r = 0
    | _ \<Rightarrow> False)"
  by code_simp

theorem component_new_dependencies_witness:
  "\<exists>c h'. component_new env_ok (one_manager 1) (Some 0) (Some ''foo'')
             (Some [''a'', ''bcdefgh'']) 2 = Some (Inr (0, Some c, h')) \<and>
          NUL \<notin> set ''foo'' \<and>
          dependency_string c 0 = Some ''foo'' \<and> dependency_string c 1 = Some ''foo''"
proof -
  from component_new_example obtain c h' where
    run: "component_new env_ok (one_manager 1) (Some 0) (Some ''foo'')
            (Some [''a'', ''bcdefgh'']) 2 = Some (Inr (0, Some c, h'))"
    by (auto split: option.splits sum.splits prod.splits)
  have nul: "NUL \<notin> set ''foo''" by (simp add: NUL_def)
  have two: "unat (2 :: 64 word) = 2" by simp
  from component_new_dependencies[OF run nul]
  have "\<forall>i < 2. dependency_string c i = Some ''foo''" unfolding two by simp
  then have "dependency_string c 0 = Some ''foo''" "dependency_string c 1 = Some ''foo''"
    by simp_all
  with run nul show ?thesis by blast
qed

text \<open>
  The block is sized from the caller's strings and filled with copies of the name: a name
  longer than the dependency it replaces does not fit, and the copy leaves the block.
\<close>

lemma component_new_overflow_example:
  "component_new env_ok (one_manager 1) (Some 0) (Some ''org.bus1.foo'') (Some [''a'']) 1
     = Some (Inl OutOfBounds)"
proof -
  have "(case component_new env_ok (one_manager 1) (Some 0) (Some ''org.bus1.foo'')
               (Some [''a'']) 1 of
           Some (Inl OutOfBounds) \<Rightarrow> True | _ \<Rightarrow> False)"
    by code_simp
  then show ?thesis
    by (auto split: option.splits sum.splits fault.splits)
qed


text \<open>
  Both loops end, and \<open>component_new\<close> comes back, when there are fewer than \<open>2 ^ 32\<close>
  dependencies.
\<close>

lemma names_size_returns:
  assumes n: "unat n < 2 ^ 32"
  shows "unat i \<le> unat n \<Longrightarrow> names_size deps n i acc \<noteq> None"
proof (induction "unat n - unat i" arbitrary: i acc)
  case 0
  then have "\<not> ucast i < n" by (simp add: ucast_less_iff)
  then show ?case by (simp add: names_size.simps[of deps n i acc])
next
  case (Suc k)
  then have lt: "unat i < unat n" by simp
  then have guard: "ucast i < n" by (simp add: ucast_less_iff)
  have suc: "unat (i + 1) = unat i + 1" using lt n by (rule unat_succ_32)
  have "names_size deps n (i + 1) (acc + (of_nat (length (deps ! unat i)) + 1)) \<noteq> None"
    using Suc(2) suc lt by (intro Suc(1)) simp_all
  then show ?case using guard by (simp add: names_size.simps[of deps n i acc])
qed

lemma copy_names_returns:
  assumes n: "unat n < 2 ^ 32"
  shows "unat i \<le> unat n \<Longrightarrow> copy_names nm doff n i buf st \<noteq> None"
proof (induction "unat n - unat i" arbitrary: i buf st)
  case 0
  then have "\<not> ucast i < n" by (simp add: ucast_less_iff)
  then show ?case by (simp add: copy_names.simps[of nm doff n i buf st])
next
  case (Suc k)
  then have lt: "unat i < unat n" by simp
  then have guard: "ucast i < n" by (simp add: ucast_less_iff)
  have suc: "unat (i + 1) = unat i + 1" using lt n by (rule unat_succ_32)
  have rec: "\<And>b s. copy_names nm doff n (i + 1) b s \<noteq> None"
    using Suc(2) suc lt by (intro Suc(1)) simp_all
  show ?case using guard rec
    by (simp add: copy_names.simps[of nm doff n i buf st] split: sum.splits prod.splits)
qed

lemma component_fill_returns:
  assumes "unat n < 2 ^ 32"
  shows "component_fill nm n sz szc \<noteq> None"
proof -
  have cn: "\<And>nm doff buf st. copy_names nm doff n 0 buf st \<noteq> None"
    using copy_names_returns[OF assms, of 0] by simp
  show ?thesis
    by (auto simp: component_fill_def cn split: option.splits sum.splits prod.splits)
qed

lemma component_new_returns:
  assumes "unat n < 2 ^ 32"
  shows "component_new e h mgr nm deps n \<noteq> None"
proof -
  have ns: "\<And>ds acc. names_size ds n 0 acc \<noteq> None"
    using names_size_returns[OF assms, of 0] by simp
  have fill: "\<And>nm sz szc. component_fill nm n sz szc \<noteq> None"
    using assms by (rule component_fill_returns)
  have zero: "unat (0 :: 64 word) < 2 ^ 32" by simp
  have ns0: "\<And>ds acc. names_size ds 0 0 acc \<noteq> None"
    using names_size_returns[OF zero, of 0] by simp
  have fill0: "\<And>nm sz szc. component_fill nm 0 sz szc \<noteq> None"
    using zero by (rule component_fill_returns)
  show ?thesis
    by (auto simp: component_new_def ns fill ns0 fill0
        split: option.splits sum.splits prod.splits)
qed


section \<open>Properties of interfaces and dispatch\<close>

lemma add_member_result:
  "b1_interface_add_member a i nm tin tout f =
     (if in_use i then (Some InterfaceInUse, i)
      else if nm \<in> set (member_names i) then (Some DuplicateMember, i)
      else if \<not> a then (Some OutOfMemory, i)
      else (None, i\<lparr>members := members i @
              [\<lparr>member_name = nm, type_input = tin, type_output = tout, member_fn = f\<rparr>]\<rparr>))"
  by (simp add: b1_interface_add_member_def)

text \<open>Member names stay unique: a new interface has none, and \<open>b1_interface_add_member\<close>
  refuses a name that is there.\<close>

lemma add_member_distinct:
  assumes "distinct (member_names i)"
  shows "distinct (member_names (snd (b1_interface_add_member a i nm tin tout f)))"
  using assms by (simp add: b1_interface_add_member_def member_names_def)

lemma interface_new_distinct: "distinct (member_names (b1_interface_new nm))"
  by (simp add: b1_interface_new_def member_names_def)

lemma find_distinct_name:
  assumes "distinct (map member_name ms)" "mb \<in> set ms" "member_name mb = k"
  shows "find (\<lambda>x. member_name x = k) ms = Some mb"
  using assms
proof (induction ms)
  case Nil
  then show ?case by simp
next
  case (Cons x xs)
  show ?case
  proof (cases "x = mb")
    case True
    then show ?thesis using Cons.prems by simp
  next
    case False
    with Cons.prems have in_xs: "mb \<in> set xs" by simp
    then have "member_name mb \<in> set (map member_name xs)" by simp
    with Cons.prems have "member_name x \<noteq> k" by auto
    moreover have "find (\<lambda>x. member_name x = k) xs = Some mb"
      using Cons.IH Cons.prems in_xs by simp
    ultimately show ?thesis by simp
  qed
qed

lemma find_none_name:
  "k \<notin> set (map member_name ms) \<Longrightarrow> find (\<lambda>x. member_name x = k) ms = None"
  by (induction ms) auto

lemma find_some_name:
  "find (\<lambda>x. member_name x = k) ms = Some mb \<Longrightarrow> mb \<in> set ms \<and> member_name mb = k"
  by (induction ms) (auto split: if_splits)

text \<open>
  C7. \<open>b1_interface_add_member\<close> fails exactly when the interface is in use by a node, the
  name is a duplicate, or memory is short; whenever it fails the interface after the call is
  the interface before it; and when it succeeds the members are the old ones, unchanged and
  in order, followed by the new one.
\<close>

theorem add_member_failure:
  "(fst (b1_interface_add_member a i nm tin tout f) \<noteq> None \<longleftrightarrow>
       in_use i \<or> nm \<in> set (member_names i) \<or> \<not> a) \<and>
   (fst (b1_interface_add_member a i nm tin tout f) \<noteq> None \<longrightarrow>
       snd (b1_interface_add_member a i nm tin tout f) = i) \<and>
   (fst (b1_interface_add_member a i nm tin tout f) = None \<longrightarrow>
       members (snd (b1_interface_add_member a i nm tin tout f)) =
         members i @ [\<lparr>member_name = nm, type_input = tin, type_output = tout, member_fn = f\<rparr>])"
  by (simp add: add_member_result)

text \<open>
  C3. For a \<open>CALL\<close> addressed to an active node of the peer whose member names are unique:
  a member name that the node's interface does not have gives "unknown member", and a member
  of that name whose declared input signature differs from the call's signature gives
  "signature mismatch". And whenever dispatch invokes a handler, the destination resolved to
  an active node, the member name resolved to a member of its interface, the call's signature
  is that member's input signature, and the handler invoked is that member's.
\<close>

theorem dispatch_call:
  "(message_type m = B1_MESSAGE_TYPE_CALL \<and> nodes (destination m) = Some nd \<and>
      node_state nd = Active \<and> distinct (map member_name (node_members nd)) \<longrightarrow>
      (member m \<notin> set (map member_name (node_members nd)) \<longrightarrow>
         b1_message_dispatch nodes m = Inl UnknownMember) \<and>
      (\<forall>mb \<in> set (node_members nd).
         member_name mb = member m \<and> type_input mb \<noteq> signature m \<longrightarrow>
         b1_message_dispatch nodes m = Inl SignatureMismatch)) \<and>
   (\<forall>fn n u. b1_message_dispatch nodes m = Inr (Invoke fn n u) \<longrightarrow>
      (\<exists>nd' mb. nodes (destination m) = Some nd' \<and> node_state nd' = Active \<and>
         mb \<in> set (node_members nd') \<and> member_name mb = member m \<and>
         type_input mb = signature m \<and> fn = member_fn mb \<and> n = destination m \<and>
         u = userdata nd'))"
proof (intro conjI impI allI ballI)
  assume a: "message_type m = B1_MESSAGE_TYPE_CALL \<and> nodes (destination m) = Some nd \<and>
      node_state nd = Active \<and> distinct (map member_name (node_members nd))"
  assume "member m \<notin> set (map member_name (node_members nd))"
  then have "find (\<lambda>x. member_name x = member m) (node_members nd) = None"
    by (rule find_none_name)
  with a show "b1_message_dispatch nodes m = Inl UnknownMember"
    by (simp add: b1_message_dispatch_def)
next
  fix mb
  assume a: "message_type m = B1_MESSAGE_TYPE_CALL \<and> nodes (destination m) = Some nd \<and>
      node_state nd = Active \<and> distinct (map member_name (node_members nd))"
  assume mb: "mb \<in> set (node_members nd)"
    and diff: "member_name mb = member m \<and> type_input mb \<noteq> signature m"
  from a mb diff have "find (\<lambda>x. member_name x = member m) (node_members nd) = Some mb"
    by (simp add: find_distinct_name)
  with a diff show "b1_message_dispatch nodes m = Inl SignatureMismatch"
    by (auto simp: b1_message_dispatch_def)
next
  fix fn n u
  assume inv: "b1_message_dispatch nodes m = Inr (Invoke fn n u)"
  then obtain nd' mb where
    nd': "nodes (destination m) = Some nd'" "node_state nd' = Active" and
    f: "find (\<lambda>x. member_name x = member m) (node_members nd') = Some mb" and
    rest: "signature m = type_input mb" "fn = member_fn mb" "n = destination m" "u = userdata nd'"
    by (auto simp: b1_message_dispatch_def split: if_splits option.splits)
  from find_some_name[OF f] nd' rest
  show "\<exists>nd' mb. nodes (destination m) = Some nd' \<and> node_state nd' = Active \<and>
         mb \<in> set (node_members nd') \<and> member_name mb = member m \<and>
         type_input mb = signature m \<and> fn = member_fn mb \<and> n = destination m \<and>
         u = userdata nd'"
    by auto
qed


lemma example_member_names:
  "member_names component_interface_example = [''setRootNodes'', ''getDependencies'']"
  by (simp add: component_interface_example_def b1_interface_add_member_def
      b1_interface_new_def member_names_def)

lemma example_node_members:
  "node_members node_example =
     [\<lparr>member_name = ''setRootNodes'', type_input = ''a(su)'', type_output = ''()'',
        member_fn = 100\<rparr>,
      \<lparr>member_name = ''getDependencies'', type_input = ''()'', type_output = ''a(su)'',
        member_fn = 101\<rparr>]"
  by (simp add: node_example_def node_members_def b1_node_implement_def
      component_interface_example_def b1_interface_add_member_def b1_interface_new_def
      member_names_def)

lemma example_node_state: "node_state node_example = Active"
  by (simp add: node_example_def b1_node_implement_def)

theorem add_member_failure_witness:
  "''setRootNodes'' \<in> set (member_names component_interface_example) \<and>
   fst (b1_interface_add_member True component_interface_example
          ''setRootNodes'' ''s'' ''s'' 3) \<noteq> None \<and>
   snd (b1_interface_add_member True component_interface_example
          ''setRootNodes'' ''s'' ''s'' 3) = component_interface_example"
proof -
  have dup: "''setRootNodes'' \<in> set (member_names component_interface_example)"
    by (simp add: example_member_names)
  from add_member_failure[of True component_interface_example "''setRootNodes''"
      "''s''" "''s''" 3] dup
  show ?thesis by blast
qed

theorem dispatch_call_witness:
  "message_type (call_example ''nope'' ''()'') = B1_MESSAGE_TYPE_CALL \<and>
   nodes_example (destination (call_example ''nope'' ''()'')) = Some node_example \<and>
   node_state node_example = Active \<and>
   distinct (map member_name (node_members node_example)) \<and>
   b1_message_dispatch nodes_example (call_example ''nope'' ''()'') = Inl UnknownMember \<and>
   b1_message_dispatch nodes_example (call_example ''getDependencies'' ''s'')
     = Inl SignatureMismatch"
proof -
  have ty: "\<And>mb sg. message_type (call_example mb sg) = B1_MESSAGE_TYPE_CALL"
    and dst: "\<And>mb sg. nodes_example (destination (call_example mb sg)) = Some node_example"
    and mem: "\<And>mb sg. member (call_example mb sg) = mb"
    and sg: "\<And>mb sg. signature (call_example mb sg) = sg"
    by (simp_all add: call_example_def nodes_example_def)
  have dis: "distinct (map member_name (node_members node_example))"
    by (simp add: example_node_members)
  have absent: "''nope'' \<notin> set (map member_name (node_members node_example))"
    by (simp add: example_node_members)
  have present: "\<lparr>member_name = ''getDependencies'', type_input = ''()'',
      type_output = ''a(su)'', member_fn = 101\<rparr> \<in> set (node_members node_example)"
    by (simp add: example_node_members)
  from dispatch_call[of "call_example ''nope'' ''()''" nodes_example node_example]
    ty dst example_node_state dis absent
  have one: "b1_message_dispatch nodes_example (call_example ''nope'' ''()'') = Inl UnknownMember"
    by (simp add: mem)
  from dispatch_call[of "call_example ''getDependencies'' ''s''" nodes_example node_example]
    ty dst example_node_state dis
  have "\<forall>mb \<in> set (node_members node_example).
         member_name mb = ''getDependencies'' \<and> type_input mb \<noteq> ''s'' \<longrightarrow>
         b1_message_dispatch nodes_example (call_example ''getDependencies'' ''s'')
           = Inl SignatureMismatch"
    by (simp add: mem sg)
  with present
  have two: "b1_message_dispatch nodes_example (call_example ''getDependencies'' ''s'')
     = Inl SignatureMismatch"
    by fastforce
  from ty dst example_node_state dis one two show ?thesis by blast
qed


end
